theory Spec2Isabelle
  imports Main "HOL-Library.Word"
begin

unbundle bit_operations_syntax

section \<open>Data model\<close>

text \<open>
  A chunk handed over by \<open>reader.read()\<close> is a \<open>Uint8Array\<close>: a list of bytes. A
  JavaScript string is a sequence of UTF-16 code units; \<open>split\<close>, \<open>startsWith\<close>,
  \<open>slice\<close> and \<open>===\<close> all work on code units.
\<close>

type_synonym byte = "8 word"
type_synonym code_unit = "16 word"
type_synonym jsstring = "code_unit list"

definition js :: "string \<Rightarrow> jsstring" where
  \<comment> \<open>a string literal of the source (ASCII) as the code units it denotes\<close>
  "js s = map (\<lambda>c. of_nat (of_char c)) s"

definition ascii :: "string \<Rightarrow> byte list" where
  \<comment> \<open>the bytes an ASCII text has on the wire\<close>
  "ascii s = map (\<lambda>c. of_nat (of_char c)) s"

definition nl :: code_unit where
  \<comment> \<open>the separator \<open>'\n'\<close> of \<open>buffer.split('\n')\<close>\<close>
  "nl = 0x0A"

datatype js_error =
    Error string   \<comment> \<open>\<open>new Error(message)\<close> thrown by the client\<close>
  | TypeError      \<comment> \<open>a rejected \<open>fetch\<close>: the network failed\<close>
  | SyntaxError    \<comment> \<open>\<open>response.json()\<close> on a body that is not JSON\<close>
  | TimeoutError   \<comment> \<open>the abort of \<open>AbortSignal.timeout\<close>\<close>

text \<open>
  The part of a fetch \<open>Response\<close> the client reads: \<open>response.ok\<close> and the body.
  \<open>await fetch(...)\<close> either rejects or resolves to a response.
\<close>

record 'b response =
  ok :: bool
  body :: 'b

datatype 'b fetch_result = Rejected | Resolved "'b response"

section \<open>The platform's TextDecoder\<close>

text \<open>
  \<open>new TextDecoder()\<close> is the platform's UTF-8 decoder with error mode replacement and
  \<open>ignoreBOM\<close> false. It is not code of the repository; the model follows the byte
  handler of the UTF-8 decoder and the \<open>decode\<close> method of the WHATWG Encoding Standard.
  The handler's state is what carries a partial code point from one chunk to the next.
\<close>

record utf8_decoder =
  code_point :: "32 word"
  bytes_seen :: nat
  bytes_needed :: nat
  lower_boundary :: byte
  upper_boundary :: byte

definition new_utf8_decoder :: utf8_decoder where
  "new_utf8_decoder =
     \<lparr>code_point = 0, bytes_seen = 0, bytes_needed = 0,
      lower_boundary = 0x80, upper_boundary = 0xBF\<rparr>"

definition utf8_lead :: "utf8_decoder \<Rightarrow> byte \<Rightarrow> utf8_decoder \<times> 32 word list" where
  \<comment> \<open>the handler when bytes needed is 0; an error emits U+FFFD\<close>
  "utf8_lead d b =
     (if b \<le> 0x7F then (d, [ucast b])
      else if 0xC2 \<le> b \<and> b \<le> 0xDF then
        (d\<lparr>bytes_needed := 1, code_point := ucast (b AND 0x1F)\<rparr>, [])
      else if 0xE0 \<le> b \<and> b \<le> 0xEF then
        (let d1 = (if b = 0xE0 then d\<lparr>lower_boundary := 0xA0\<rparr> else d);
             d2 = (if b = 0xED then d1\<lparr>upper_boundary := 0x9F\<rparr> else d1)
         in (d2\<lparr>bytes_needed := 2, code_point := ucast (b AND 0xF)\<rparr>, []))
      else if 0xF0 \<le> b \<and> b \<le> 0xF4 then
        (let d1 = (if b = 0xF0 then d\<lparr>lower_boundary := 0x90\<rparr> else d);
             d2 = (if b = 0xF4 then d1\<lparr>upper_boundary := 0x8F\<rparr> else d1)
         in (d2\<lparr>bytes_needed := 3, code_point := ucast (b AND 0x7)\<rparr>, []))
      else (d, [0xFFFD]))"

definition utf8_handler :: "utf8_decoder \<Rightarrow> byte \<Rightarrow> utf8_decoder \<times> 32 word list" where
  \<comment> \<open>one byte of the queue; a byte outside the boundaries is an error and is put back,
      so it is handled again as a lead byte\<close>
  "utf8_handler d b =
     (if bytes_needed d = 0 then utf8_lead d b
      else if b < lower_boundary d \<or> upper_boundary d < b then
        (let (d', out) = utf8_lead new_utf8_decoder b in (d', 0xFFFD # out))
      else
        (let d1 = d\<lparr>lower_boundary := 0x80, upper_boundary := 0xBF,
                    code_point := push_bit 6 (code_point d) OR ucast (b AND 0x3F),
                    bytes_seen := bytes_seen d + 1\<rparr>
         in if bytes_seen d1 \<noteq> bytes_needed d1 then (d1, [])
            else (new_utf8_decoder, [code_point d1])))"

fun utf8_process :: "utf8_decoder \<Rightarrow> byte list \<Rightarrow> utf8_decoder \<times> 32 word list" where
  "utf8_process d [] = (d, [])"
| "utf8_process d (b # bs) =
     (let (d1, out1) = utf8_handler d b;
          (d2, out2) = utf8_process d1 bs
      in (d2, out1 @ out2))"

definition utf16_units :: "32 word \<Rightarrow> jsstring" where
  \<comment> \<open>a code point appended to a JavaScript string\<close>
  "utf16_units cp =
     (if cp \<le> 0xFFFF then [ucast cp]
      else [0xD800 + ucast (drop_bit 10 (cp - 0x10000)),
            0xDC00 + ucast ((cp - 0x10000) AND 0x3FF)])"

fun serialize_queue :: "bool \<Rightarrow> 32 word list \<Rightarrow> bool \<times> jsstring" where
  \<comment> \<open>serialize I/O queue: the first code point sets BOM seen, and is dropped when it is
      U+FEFF\<close>
  "serialize_queue seen [] = (seen, [])"
| "serialize_queue seen (item # items) =
     (if \<not> seen then
        (if item = 0xFEFF then serialize_queue True items
         else (let (seen', out) = serialize_queue True items in (seen', utf16_units item @ out)))
      else (let (seen', out) = serialize_queue seen items in (seen', utf16_units item @ out)))"

record text_decoder =
  decoder :: utf8_decoder
  bom_seen :: bool
  do_not_flush :: bool

definition new_TextDecoder :: text_decoder where
  "new_TextDecoder = \<lparr>decoder = new_utf8_decoder, bom_seen = False, do_not_flush = False\<rparr>"

definition decode_stream :: "text_decoder \<Rightarrow> byte list \<Rightarrow> text_decoder \<times> jsstring" where
  \<comment> \<open>\<open>decoder.decode(value, { stream: true })\<close>: no end-of-queue is processed, so an
      unfinished code point stays in the decoder\<close>
  "decode_stream td input =
     (let td0 = (if \<not> do_not_flush td
                 then td\<lparr>decoder := new_utf8_decoder, bom_seen := False\<rparr> else td);
          (d', items) = utf8_process (decoder td0) input;
          (seen', out) = serialize_queue (bom_seen td0) items
      in (\<lparr>decoder = d', bom_seen = seen', do_not_flush = True\<rparr>, out))"

section \<open>String operations of the loop\<close>

fun split :: "jsstring \<Rightarrow> code_unit \<Rightarrow> jsstring list" where
  \<comment> \<open>\<open>s.split(sep)\<close> for a separator of one code unit: never an empty array\<close>
  "split [] sep = [[]]"
| "split (c # cs) sep =
     (if c = sep then [] # split cs sep
      else (case split cs sep of
              [] \<Rightarrow> [[c]]
            | l # ls \<Rightarrow> (c # l) # ls))"

definition startsWith :: "jsstring \<Rightarrow> jsstring \<Rightarrow> bool" where
  "startsWith s p = (take (length p) s = p)"

definition slice_js :: "jsstring \<Rightarrow> nat \<Rightarrow> jsstring" where
  "slice_js s n = drop n s"

definition pop_or_empty :: "jsstring list \<Rightarrow> jsstring \<times> jsstring list" where
  \<comment> \<open>\<open>lines.pop() || ''\<close> and the array left behind; \<open>pop\<close> of an empty array is
      \<open>undefined\<close>, and the empty string is falsy\<close>
  "pop_or_empty ls =
     (if ls = [] then ([], [])
      else if last ls = [] then ([], butlast ls)
      else (last ls, butlast ls))"

section \<open>streamReconciliation\<close>

text \<open>
  \<open>JSON.parse\<close> is the platform's and is a parameter \<open>parse\<close>: \<open>None\<close> when it throws.
  The events a generator yields are the list it returns here; the flag of the inner loop
  says that \<open>return\<close> was reached at the sentinel. The body is the list of chunks that
  \<open>reader.read()\<close> hands over before it reports \<open>done\<close>; a read that rejects in the
  middle of a body is not part of the model.
\<close>

fun reconciliation_lines :: "(jsstring \<Rightarrow> 'e option) \<Rightarrow> jsstring list \<Rightarrow> 'e list \<times> bool" where
  "reconciliation_lines parse [] = ([], False)"
| "reconciliation_lines parse (line # lines) =
     (if startsWith line (js ''data: '') then
        (let data = slice_js line 6 in
         if data = js ''[DONE]'' then ([], True)
         else (case parse data of
                 Some ev \<Rightarrow>
                   (let (evs, returned) = reconciliation_lines parse lines
                    in (ev # evs, returned))
               | None \<Rightarrow> reconciliation_lines parse lines))
      else reconciliation_lines parse lines)"

fun reconciliation_loop ::
  "(jsstring \<Rightarrow> 'e option) \<Rightarrow> text_decoder \<Rightarrow> jsstring \<Rightarrow> byte list list \<Rightarrow> 'e list" where
  "reconciliation_loop parse td buffer [] = []"
| "reconciliation_loop parse td buffer (v # rest) =
     (let (td', decoded) = decode_stream td v;
          buffer1 = buffer @ decoded;
          (buffer2, lines) = pop_or_empty (split buffer1 nl);
          (evs, returned) = reconciliation_lines parse lines
      in if returned then evs
         else evs @ reconciliation_loop parse td' buffer2 rest)"

definition streamReconciliation ::
  "(jsstring \<Rightarrow> 'e option) \<Rightarrow> 'f \<Rightarrow> byte list list option fetch_result
     \<Rightarrow> js_error + 'e list" where
  "streamReconciliation parse file fetched =
     (case fetched of
        Rejected \<Rightarrow> Inl TypeError
      | Resolved resp \<Rightarrow>
          (if \<not> ok resp then Inl (Error ''Reconciliation failed'')
           else (case body resp of
                   None \<Rightarrow> Inl (Error ''No response body'')
                 | Some chunks \<Rightarrow>
                     Inr (reconciliation_loop parse new_TextDecoder [] chunks))))"

section \<open>streamVisualization\<close>

fun visualization_lines :: "(jsstring \<Rightarrow> 'e option) \<Rightarrow> jsstring list \<Rightarrow> 'e list \<times> bool" where
  "visualization_lines parse [] = ([], False)"
| "visualization_lines parse (line # lines) =
     (if startsWith line (js ''data: '') then
        (let data = slice_js line 6 in
         if data = js ''[DONE]'' then ([], True)
         else (case parse data of
                 Some ev \<Rightarrow>
                   (let (evs, returned) = visualization_lines parse lines
                    in (ev # evs, returned))
               | None \<Rightarrow> visualization_lines parse lines))
      else visualization_lines parse lines)"

fun visualization_loop ::
  "(jsstring \<Rightarrow> 'e option) \<Rightarrow> text_decoder \<Rightarrow> jsstring \<Rightarrow> byte list list \<Rightarrow> 'e list" where
  "visualization_loop parse td buffer [] = []"
| "visualization_loop parse td buffer (v # rest) =
     (let (td', decoded) = decode_stream td v;
          buffer1 = buffer @ decoded;
          (buffer2, lines) = pop_or_empty (split buffer1 nl);
          (evs, returned) = visualization_lines parse lines
      in if returned then evs
         else evs @ visualization_loop parse td' buffer2 rest)"

definition streamVisualization ::
  "(jsstring \<Rightarrow> 'e option) \<Rightarrow> byte list list option fetch_result \<Rightarrow> js_error + 'e list" where
  "streamVisualization parse fetched =
     (case fetched of
        Rejected \<Rightarrow> Inl TypeError
      | Resolved resp \<Rightarrow>
          (if \<not> ok resp then Inl (Error ''Visualization failed'')
           else (case body resp of
                   None \<Rightarrow> Inl (Error ''No response body'')
                 | Some chunks \<Rightarrow>
                     Inr (visualization_loop parse new_TextDecoder [] chunks))))"

section \<open>The platform's JSON.parse\<close>

text \<open>
  Every theorem about the streams holds for any \<open>parse\<close>. The concrete instances are
  evaluated with \<open>JSON_parse\<close>, which follows the JSON grammar of ECMA-404 on code
  units: \<open>None\<close> is the \<open>SyntaxError\<close>. A number keeps its lexeme (its value is a double),
  an object keeps the last value of a repeated key, and the order in which a JavaScript
  object enumerates its keys is not modelled. The fuel bounds the nesting: every nested
  call is on a shorter rest of the input or follows one that is.
\<close>

datatype json =
    JNull
  | JBool bool
  | JNumber jsstring
  | JString jsstring
  | JArray "json list"
  | JObject "(jsstring \<times> json) list"

definition is_ws :: "code_unit \<Rightarrow> bool" where
  "is_ws c = (c = 0x20 \<or> c = 0x09 \<or> c = 0x0A \<or> c = 0x0D)"

fun skip_ws :: "jsstring \<Rightarrow> jsstring" where
  "skip_ws [] = []"
| "skip_ws (c # cs) = (if is_ws c then skip_ws cs else c # cs)"

definition next_is :: "code_unit \<Rightarrow> jsstring \<Rightarrow> bool" where
  "next_is c s = (case s of [] \<Rightarrow> False | x # _ \<Rightarrow> x = c)"

definition is_digit :: "code_unit \<Rightarrow> bool" where
  "is_digit c = (0x30 \<le> c \<and> c \<le> 0x39)"

definition hex_digit :: "code_unit \<Rightarrow> code_unit option" where
  "hex_digit c =
     (if 0x30 \<le> c \<and> c \<le> 0x39 then Some (c - 0x30)
      else if 0x41 \<le> c \<and> c \<le> 0x46 then Some (c - 0x41 + 10)
      else if 0x61 \<le> c \<and> c \<le> 0x66 then Some (c - 0x61 + 10)
      else None)"

definition escape_unit :: "code_unit \<Rightarrow> code_unit option" where
  "escape_unit e =
     (if e = 0x22 then Some 0x22 else if e = 0x5C then Some 0x5C
      else if e = 0x2F then Some 0x2F else if e = 0x62 then Some 0x08
      else if e = 0x66 then Some 0x0C else if e = 0x6E then Some 0x0A
      else if e = 0x72 then Some 0x0D else if e = 0x74 then Some 0x09
      else None)"

definition unicode_escape :: "jsstring \<Rightarrow> code_unit option" where
  "unicode_escape s =
     (case map hex_digit (take 4 s) of
        [Some a, Some b, Some c, Some d] \<Rightarrow>
          Some (push_bit 12 a OR push_bit 8 b OR push_bit 4 c OR d)
      | _ \<Rightarrow> None)"

fun json_string :: "nat \<Rightarrow> jsstring \<Rightarrow> (jsstring \<times> jsstring) option" where
  "json_string 0 s = None"
| "json_string (Suc n) [] = None"
| "json_string (Suc n) (c # cs) =
     (if c = 0x22 then Some ([], cs)
      else if c < 0x20 then None
      else if c = 0x5C then
        (case cs of
           [] \<Rightarrow> None
         | e # es \<Rightarrow>
             if e = 0x75 then
               (case unicode_escape es of
                  None \<Rightarrow> None
                | Some u \<Rightarrow> map_option (\<lambda>(t, r). (u # t, r)) (json_string n (drop 4 es)))
             else
               (case escape_unit e of
                  None \<Rightarrow> None
                | Some u \<Rightarrow> map_option (\<lambda>(t, r). (u # t, r)) (json_string n es)))
      else map_option (\<lambda>(t, r). (c # t, r)) (json_string n cs))"

definition json_number :: "jsstring \<Rightarrow> (jsstring \<times> jsstring) option" where
  "json_number s =
     (let (sign, s1) = (if next_is 0x2D s then ([0x2D], tl s) else ([], s));
          int_part = (if next_is 0x30 s1 then Some ([0x30], tl s1)
                      else if takeWhile is_digit s1 = [] then None
                      else Some (takeWhile is_digit s1, dropWhile is_digit s1))
      in case int_part of
           None \<Rightarrow> None
         | Some (ip, s2) \<Rightarrow>
             (let frac = (if next_is 0x2E s2 then
                            (if takeWhile is_digit (tl s2) = [] then None
                             else Some (0x2E # takeWhile is_digit (tl s2),
                                        dropWhile is_digit (tl s2)))
                          else Some ([], s2))
              in case frac of
                   None \<Rightarrow> None
                 | Some (fp, s3) \<Rightarrow>
                     (if next_is 0x65 s3 \<or> next_is 0x45 s3 then
                        (let s4 = tl s3;
                             (es, s5) = (if next_is 0x2B s4 \<or> next_is 0x2D s4
                                         then ([hd s4], tl s4) else ([], s4))
                         in if takeWhile is_digit s5 = [] then None
                            else Some (sign @ ip @ fp @ [hd s3] @ es @ takeWhile is_digit s5,
                                       dropWhile is_digit s5))
                      else Some (sign @ ip @ fp, s3))))"

fun put_member :: "jsstring \<Rightarrow> json \<Rightarrow> (jsstring \<times> json) list \<Rightarrow> (jsstring \<times> json) list" where
  "put_member k v [] = [(k, v)]"
| "put_member k v ((k', v') # ms) =
     (if k' = k then (k, v) # ms else (k', v') # put_member k v ms)"

fun json_value :: "nat \<Rightarrow> jsstring \<Rightarrow> (json \<times> jsstring) option"
  and json_elements :: "nat \<Rightarrow> jsstring \<Rightarrow> (json list \<times> jsstring) option"
  and json_members :: "nat \<Rightarrow> jsstring \<Rightarrow> ((jsstring \<times> json) list \<times> jsstring) option"
where
  "json_value 0 s = None"
| "json_value (Suc n) s =
     (if next_is 0x7B s then
        (if next_is 0x7D (skip_ws (tl s)) then Some (JObject [], tl (skip_ws (tl s)))
         else map_option (\<lambda>(ms, r). (JObject (fold (\<lambda>(k, v). put_member k v) ms []), r))
                (json_members n (skip_ws (tl s))))
      else if next_is 0x5B s then
        (if next_is 0x5D (skip_ws (tl s)) then Some (JArray [], tl (skip_ws (tl s)))
         else map_option (\<lambda>(vs, r). (JArray vs, r)) (json_elements n (skip_ws (tl s))))
      else if next_is 0x22 s then
        map_option (\<lambda>(t, r). (JString t, r)) (json_string (length s) (tl s))
      else if take 4 s = js ''true'' then Some (JBool True, drop 4 s)
      else if take 5 s = js ''false'' then Some (JBool False, drop 5 s)
      else if take 4 s = js ''null'' then Some (JNull, drop 4 s)
      else map_option (\<lambda>(t, r). (JNumber t, r)) (json_number s))"
| "json_elements 0 s = None"
| "json_elements (Suc n) s =
     (case json_value n s of
        None \<Rightarrow> None
      | Some (v, r) \<Rightarrow>
          (let r1 = skip_ws r in
           if next_is 0x5D r1 then Some ([v], tl r1)
           else if next_is 0x2C r1 then
             map_option (\<lambda>(vs, r2). (v # vs, r2)) (json_elements n (skip_ws (tl r1)))
           else None))"
| "json_members 0 s = None"
| "json_members (Suc n) s =
     (if \<not> next_is 0x22 s then None
      else (case json_string (length s) (tl s) of
              None \<Rightarrow> None
            | Some (k, r) \<Rightarrow>
                (let r1 = skip_ws r in
                 if \<not> next_is 0x3A r1 then None
                 else (case json_value n (skip_ws (tl r1)) of
                         None \<Rightarrow> None
                       | Some (v, r2) \<Rightarrow>
                           (let r3 = skip_ws r2 in
                            if next_is 0x7D r3 then Some ([(k, v)], tl r3)
                            else if next_is 0x2C r3 then
                              map_option (\<lambda>(ms, r4). ((k, v) # ms, r4))
                                (json_members n (skip_ws (tl r3)))
                            else None)))))"

definition JSON_parse :: "jsstring \<Rightarrow> json option" where
  "JSON_parse s =
     (case json_value (2 * length s + 2) (skip_ws s) of
        None \<Rightarrow> None
      | Some (v, r) \<Rightarrow> if skip_ws r = [] then Some v else None)"

section \<open>The event sequence in the words of the specification\<close>

text \<open>
  \<open>body_text\<close> is the text the decoder has produced for a whole body. \<open>unlines\<close> builds
  a text from lines that are each ended by the delimiter. \<open>spec_line_events\<close> and
  \<open>spec_dispatch\<close> follow the specification's Event Dispatcher, not the source: a line
  takes part only if it begins with \<open>data: \<close>, its remainder is parsed and dropped when
  parsing fails, and the sequence ends at the first sentinel line.
\<close>

definition body_text :: "byte list list \<Rightarrow> jsstring" where
  "body_text chunks = snd (decode_stream new_TextDecoder (concat chunks))"

definition unlines :: "jsstring list \<Rightarrow> jsstring" where
  "unlines ls = concat (map (\<lambda>l. l @ [nl]) ls)"

definition spec_line_events :: "(jsstring \<Rightarrow> 'e option) \<Rightarrow> jsstring list \<Rightarrow> 'e list" where
  "spec_line_events parse ls =
     List.map_filter (\<lambda>l. parse (drop 6 l)) (filter (\<lambda>l. take 6 l = js ''data: '') ls)"

definition spec_dispatch :: "(jsstring \<Rightarrow> 'e option) \<Rightarrow> jsstring list \<Rightarrow> 'e list" where
  "spec_dispatch parse ls =
     spec_line_events parse (takeWhile (\<lambda>l. l \<noteq> js ''data: [DONE]'') ls)"

section \<open>Session context\<close>

datatype integrity_status = PASS | WARN | FAIL

record AuditData =
  original_row_count :: int
  clean_row_count :: int
  audit_duplicates_removed :: int
  residual_nulls :: int
  composite_key_present :: bool
  integrity_status :: integrity_status

record ReconciliationSummary =
  session_id :: string
  filename :: string
  original_rows :: int
  clean_rows :: int
  duplicates_removed :: int
  audit :: AuditData

record HealthResponse =
  status :: string
  has_session :: bool
  health_filename :: "string option"

text \<open>
  The three \<open>useState\<close> cells of \<open>SessionProvider\<close>, with their initial values. A setter
  replaces one cell; the calls of one handler are applied in the order they are written.
\<close>

record SessionState =
  hasSession :: bool
  sessionData :: "ReconciliationSummary option"
  backendOnline :: bool

definition initial_session :: SessionState where
  "initial_session = \<lparr>hasSession = False, sessionData = None, backendOnline = True\<rparr>"

definition checkHealth :: "HealthResponse option fetch_result \<Rightarrow> js_error + HealthResponse" where
  \<comment> \<open>the body is what \<open>response.json()\<close> gives, \<open>None\<close> when it rejects\<close>
  "checkHealth fetched =
     (case fetched of
        Rejected \<Rightarrow> Inl TypeError
      | Resolved resp \<Rightarrow>
          (if \<not> ok resp then Inl (Error ''Backend offline'')
           else (case body resp of None \<Rightarrow> Inl SyntaxError | Some health \<Rightarrow> Inr health)))"

definition refreshSession :: "HealthResponse option fetch_result \<Rightarrow> SessionState \<Rightarrow> SessionState" where
  "refreshSession fetched s =
     (case checkHealth fetched of
        Inr health \<Rightarrow>
          (let s1 = s\<lparr>backendOnline := True\<rparr>;
               s2 = s1\<lparr>hasSession := has_session health\<rparr>
           in if \<not> has_session health then s2\<lparr>sessionData := None\<rparr> else s2)
      | Inl e \<Rightarrow>
          (let s1 = s\<lparr>backendOnline := False\<rparr>
           in s1\<lparr>hasSession := False\<rparr>))"

definition setSessionData :: "ReconciliationSummary option \<Rightarrow> SessionState \<Rightarrow> SessionState" where
  \<comment> \<open>the \<open>setSessionData\<close> of the context value; \<open>!!data\<close> is false for \<open>null\<close> only\<close>
  "setSessionData data s =
     (let s1 = s\<lparr>sessionData := data\<rparr>
      in s1\<lparr>hasSession := (data \<noteq> None)\<rparr>)"

definition example_summary :: ReconciliationSummary where
  "example_summary =
     \<lparr>session_id = ''s1'', filename = ''a.csv'', original_rows = 100, clean_rows = 90,
      duplicates_removed = 10,
      audit = \<lparr>original_row_count = 100, clean_row_count = 90, audit_duplicates_removed = 10,
                residual_nulls = 0, composite_key_present = True, integrity_status = PASS\<rparr>\<rparr>"

section \<open>Requests to /ask\<close>

text \<open>
  The second argument of \<open>fetch\<close>. \<open>signal\<close> is the number of milliseconds of
  \<open>AbortSignal.timeout\<close> when the request carries one. The body is the object handed to
  \<open>JSON.stringify\<close>.
\<close>

record 'q ChatRequest =
  question :: 'q

record ChatSession =
  chat_filename :: string
  chat_original_rows :: int
  chat_clean_rows :: int

record ChatResponse =
  answer :: "string option"
  grounded :: bool
  session :: ChatSession

record 'q request_init =
  url :: string
  http_method :: string
  headers :: "(string \<times> string) list"
  request_body :: "'q ChatRequest"
  signal :: "nat option"

definition API_BASE :: string where
  "API_BASE = ''http://localhost:8000''"

text \<open>
  What the network does with one request: it never answers, or the whole answer (or the
  failure) is there after some milliseconds. The platform's \<open>fetch\<close> with a timeout signal
  rejects when the answer is not there by then; without a signal it waits, and a call that
  never settles is \<open>None\<close>.
\<close>

datatype 'b network = Never | After nat "'b fetch_result"

definition fetch :: "'q request_init \<Rightarrow> 'b network \<Rightarrow> (js_error + 'b response) option" where
  "fetch init net =
     (case net of
        Never \<Rightarrow> (case signal init of None \<Rightarrow> None | Some ms \<Rightarrow> Some (Inl TimeoutError))
      | After t fetched \<Rightarrow>
          (if (case signal init of None \<Rightarrow> False | Some ms \<Rightarrow> ms \<le> t)
           then Some (Inl TimeoutError)
           else (case fetched of
                   Rejected \<Rightarrow> Some (Inl TypeError)
                 | Resolved resp \<Rightarrow> Some (Inr resp))))"

definition askQuestion_init :: "'q ChatRequest \<Rightarrow> 'q request_init" where
  "askQuestion_init request =
     \<lparr>url = API_BASE @ ''/ask'', http_method = ''POST'',
      headers = [(''Content-Type'', ''application/json'')],
      request_body = request, signal = None\<rparr>"

definition askQuestion ::
  "'q ChatRequest \<Rightarrow> ChatResponse option network \<Rightarrow> (js_error + ChatResponse) option" where
  "askQuestion request net =
     (case fetch (askQuestion_init request) net of
        None \<Rightarrow> None
      | Some (Inl e) \<Rightarrow> Some (Inl e)
      | Some (Inr resp) \<Rightarrow>
          (if \<not> ok resp then Some (Inl (Error ''Question failed''))
           else (case body resp of
                   None \<Rightarrow> Some (Inl SyntaxError)
                 | Some r \<Rightarrow> Some (Inr r))))"

text \<open>
  \<open>InsightCard.fetchInsight\<close>: the four \<open>useState\<close> cells of the card. The prompt is built
  from the session data with floating-point formatting and is the parameter \<open>prompt\<close>.
\<close>

record InsightState =
  insight :: string
  loading :: bool
  error :: bool
  fetched :: bool

definition fetchInsight_init :: "'q \<Rightarrow> 'q request_init" where
  "fetchInsight_init prompt =
     \<lparr>url = ''http://localhost:8000/ask'', http_method = ''POST'',
      headers = [(''Content-Type'', ''application/json'')],
      request_body = \<lparr>question = prompt\<rparr>, signal = Some 25000\<rparr>"

definition fetchInsight ::
  "('d \<Rightarrow> 'q) \<Rightarrow> 'd option \<Rightarrow> ChatResponse option network \<Rightarrow> InsightState
     \<Rightarrow> InsightState option" where
  "fetchInsight prompt session_data net st =
     (case session_data of
        None \<Rightarrow> Some st
      | Some d \<Rightarrow>
          (let st1 = st\<lparr>loading := True\<rparr>;
               st2 = st1\<lparr>error := False\<rparr>
           in case fetch (fetchInsight_init (prompt d)) net of
                None \<Rightarrow> None
              | Some (Inl e) \<Rightarrow> Some (st2\<lparr>error := True, loading := False\<rparr>)
              | Some (Inr res) \<Rightarrow>
                  (if \<not> ok res then Some (st2\<lparr>error := True, loading := False\<rparr>)
                   else (case body res of
                           None \<Rightarrow> Some (st2\<lparr>error := True, loading := False\<rparr>)
                         | Some data \<Rightarrow>
                             Some (st2\<lparr>insight := (case answer data of None \<Rightarrow> [] | Some a \<Rightarrow> a),
                                       fetched := True, loading := False\<rparr>)))))"

section \<open>The decoder and the line buffer over appended input\<close>

lemma utf8_process_append:
  "utf8_process d (a @ b) =
     (let (d1, o1) = utf8_process d a; (d2, o2) = utf8_process d1 b in (d2, o1 @ o2))"
  by (induction a arbitrary: d) (simp_all add: split_def Let_def)

lemma serialize_queue_append:
  "serialize_queue s (a @ b) =
     (let (s1, o1) = serialize_queue s a; (s2, o2) = serialize_queue s1 b in (s2, o1 @ o2))"
  by (induction a arbitrary: s) (simp_all add: split_def Let_def)

lemma decode_stream_append:
  "decode_stream td (a @ b) =
     (let (td1, t1) = decode_stream td a; (td2, t2) = decode_stream td1 b in (td2, t1 @ t2))"
  by (simp add: decode_stream_def utf8_process_append serialize_queue_append split_def Let_def)

lemma split_not_Nil: "split s sep \<noteq> []"
  by (induction s) (auto split: list.splits)

lemma split_append:
  "split (a @ b) sep = butlast (split a sep) @ split (last (split a sep) @ b) sep"
proof (induction a)
  case Nil
  show ?case by simp
next
  case (Cons c a)
  obtain l ls where s: "split a sep = l # ls"
    using split_not_Nil[of a sep] by (cases "split a sep") auto
  show ?case
  proof (cases "c = sep")
    case True
    then show ?thesis using Cons s split_not_Nil[of a sep] by simp
  next
    case False
    show ?thesis
    proof (cases ls)
      case Nil
      then show ?thesis using Cons s False by simp
    next
      case (Cons l' ls')
      then show ?thesis using Cons.IH s False split_not_Nil[of "last (l' # ls') @ b" sep]
        by (auto split: list.splits)
    qed
  qed
qed

lemma pop_or_empty_split:
  "pop_or_empty (split s sep) = (last (split s sep), butlast (split s sep))"
  by (simp add: pop_or_empty_def split_not_Nil)

lemma startsWith_data: "startsWith line (js ''data: '') \<longleftrightarrow> take 6 line = js ''data: ''"
proof -
  have "length (js ''data: '') = 6" by (simp add: js_def)
  then show ?thesis unfolding startsWith_def by simp
qed

lemma sentinel_iff:
  "(startsWith line (js ''data: '') \<and> slice_js line 6 = js ''[DONE]'') \<longleftrightarrow> line = js ''data: [DONE]''"
proof
  assume a: "startsWith line (js ''data: '') \<and> slice_js line 6 = js ''[DONE]''"
  have "line = take 6 line @ drop 6 line" by simp
  also have "\<dots> = js ''data: '' @ js ''[DONE]''"
    using a by (simp add: startsWith_data slice_js_def)
  finally show "line = js ''data: [DONE]''" by (simp add: js_def)
next
  assume "line = js ''data: [DONE]''"
  then show "startsWith line (js ''data: '') \<and> slice_js line 6 = js ''[DONE]''"
    unfolding startsWith_data slice_js_def by (simp add: js_def)
qed

lemma reconciliation_lines_spec:
  "reconciliation_lines parse ls =
     (spec_dispatch parse ls, js ''data: [DONE]'' \<in> set ls)"
proof (induction ls)
  case Nil
  show ?case by (simp add: spec_dispatch_def spec_line_events_def List.map_filter_simps)
next
  case (Cons line ls)
  show ?case
  proof (cases "line = js ''data: [DONE]''")
    case True
    then have "startsWith line (js ''data: '')" "slice_js line 6 = js ''[DONE]''"
      using sentinel_iff[of line] by auto
    then show ?thesis using True
      by (simp add: spec_dispatch_def spec_line_events_def List.map_filter_simps)
  next
    case False
    then have ns: "\<not> (startsWith line (js ''data: '') \<and> slice_js line 6 = js ''[DONE]'')"
      using sentinel_iff[of line] by auto
    show ?thesis
    proof (cases "startsWith line (js ''data: '')")
      case True
      then have t: "take 6 line = js ''data: ''" by (simp add: startsWith_data)
      from True ns have nd: "slice_js line 6 \<noteq> js ''[DONE]''" by simp
      show ?thesis using True nd t False Cons.IH
        by (cases "parse (slice_js line 6)")
           (auto simp: spec_dispatch_def spec_line_events_def List.map_filter_simps slice_js_def)
    next
      case F: False
      then have t: "take 6 line \<noteq> js ''data: ''" by (simp add: startsWith_data)
      show ?thesis using F t False Cons.IH
        by (auto simp: spec_dispatch_def spec_line_events_def List.map_filter_simps)
    qed
  qed
qed

lemma spec_dispatch_append:
  "spec_dispatch parse (a @ b) =
     (if js ''data: [DONE]'' \<in> set a then spec_dispatch parse a
      else spec_dispatch parse a @ spec_dispatch parse b)"
proof (cases "js ''data: [DONE]'' \<in> set a")
  case True
  then have "takeWhile (\<lambda>l. l \<noteq> js ''data: [DONE]'') (a @ b)
      = takeWhile (\<lambda>l. l \<noteq> js ''data: [DONE]'') a"
    by (induction a) auto
  then show ?thesis using True by (simp add: spec_dispatch_def)
next
  case False
  then have tw1: "takeWhile (\<lambda>l. l \<noteq> js ''data: [DONE]'') (a @ b)
      = a @ takeWhile (\<lambda>l. l \<noteq> js ''data: [DONE]'') b"
    by (induction a) auto
  have tw2: "takeWhile (\<lambda>l. l \<noteq> js ''data: [DONE]'') a = a"
    using False by (induction a) auto
  have "spec_dispatch parse (a @ b) = spec_dispatch parse a @ spec_dispatch parse b"
    unfolding spec_dispatch_def tw1 tw2
    by (simp add: spec_line_events_def List.map_filter_def)
  then show ?thesis using False by simp
qed

lemma split_no_sep: "sep \<notin> set s \<Longrightarrow> split s sep = [s]"
  by (induction s) auto

lemma last_split_no_sep: "sep \<notin> set (last (split s sep))"
  by (induction s) (auto simp: split_not_Nil split: list.splits)

lemma reconciliation_loop_spec:
  "nl \<notin> set buffer \<Longrightarrow>
   reconciliation_loop parse td buffer chunks =
     spec_dispatch parse (butlast (split (buffer @ snd (decode_stream td (concat chunks))) nl))"
proof (induction chunks arbitrary: td buffer)
  case Nil
  then show ?case 
    by (auto simp: decode_stream_def split_no_sep spec_dispatch_def spec_line_events_def
        List.map_filter_def)
next
  case (Cons v rest)
  obtain td' str where d: "decode_stream td v = (td', str)"
    by (cases "decode_stream td v")
  let ?ls = "split (buffer @ str) nl"
  have ih: "reconciliation_loop parse td' (last ?ls) rest =
     spec_dispatch parse (butlast (split (last ?ls @ snd (decode_stream td' (concat rest))) nl))"
    using Cons.IH[of "last ?ls" td'] last_split_no_sep by blast
  have whole: "buffer @ snd (decode_stream td (v @ concat rest))
      = (buffer @ str) @ snd (decode_stream td' (concat rest))"
    by (simp add: decode_stream_append d split_def Let_def)
  have sp: "butlast (split ((buffer @ str) @ snd (decode_stream td' (concat rest))) nl)
     = butlast ?ls @ butlast (split (last ?ls @ snd (decode_stream td' (concat rest))) nl)"
    by (subst split_append) (simp add: butlast_append split_not_Nil)
  show ?case
    using ih
    by (simp add: d pop_or_empty_split reconciliation_lines_spec whole sp spec_dispatch_append
          Let_def del: append_assoc)
     
qed

section \<open>The decoder on ASCII bodies\<close>

text \<open>
  On a body of bytes below 0x80 the decoder is the identity: the decoded text is the
  bytes themselves, one code unit each.
\<close>

lemma unat_byte_less: "unat (b :: byte) < 256"
  using unsigned_less[of b, where 'a = nat] by simp

lemma unat_ucast_byte: "unat (ucast (b :: byte) :: 32 word) = unat b"
proof -
  have "unat b < 2 ^ 32" using unat_byte_less[of b] by simp
  then show ?thesis by (simp add: unsigned_ucast_eq take_bit_nat_eq_self)
qed

lemma ucast_ucast_byte: "(ucast (ucast (b :: byte) :: 32 word) :: 16 word) = ucast b"
  by (rule bit_word_eqI) (auto simp: bit_ucast_iff dest: bit_imp_le_length)

lemma utf8_process_ascii:
  "\<forall>b\<in>set bs. b \<le> 0x7F \<Longrightarrow> bytes_needed d = 0 \<Longrightarrow>
   utf8_process d bs = (d, map ucast bs)"
  by (induction bs) (simp_all add: utf8_handler_def utf8_lead_def)

lemma ucast_byte_le: "(ucast (b :: byte) :: 32 word) \<le> 0xFFFF"
  using unat_byte_less[of b] by (simp add: word_le_nat_alt unat_ucast_byte)

lemma ucast_byte_not_bom: "(ucast (b :: byte) :: 32 word) \<noteq> 0xFEFF"
proof
  assume "(ucast b :: 32 word) = 0xFEFF"
  then have "unat (ucast b :: 32 word) = unat (0xFEFF :: 32 word)" by simp
  then show False using unat_byte_less[of b] by (simp add: unat_ucast_byte)
qed

lemma utf16_units_byte: "utf16_units (ucast (b :: byte)) = [ucast b]"
  by (simp add: utf16_units_def ucast_byte_le ucast_ucast_byte)

lemma serialize_queue_bytes:
  "snd (serialize_queue seen (map ucast (bs :: byte list))) = map ucast bs"
  by (induction bs arbitrary: seen)
     (simp_all add: ucast_byte_not_bom utf16_units_byte split_def Let_def)

lemma body_text_ascii:
  "\<forall>b\<in>set (concat chunks). b \<le> 0x7F \<Longrightarrow> body_text chunks = map ucast (concat chunks)"
  by (simp add: body_text_def decode_stream_def new_TextDecoder_def new_utf8_decoder_def
      utf8_process_ascii serialize_queue_bytes split_def Let_def)

section \<open>The stream as a function of the decoded body\<close>

lemma streamReconciliation_spec:
  "streamReconciliation parse file (Resolved \<lparr>ok = True, body = Some chunks\<rparr>) =
     Inr (spec_dispatch parse (butlast (split (body_text chunks) nl)))"
  using reconciliation_loop_spec[of "[]" parse new_TextDecoder chunks]
  by (simp add: streamReconciliation_def body_text_def)

lemma split_unlines:
  "\<forall>l\<in>set ls. nl \<notin> set l \<Longrightarrow> split (unlines ls @ rest) nl = ls @ split rest nl"
proof (induction ls)
  case Nil
  show ?case by (simp add: unlines_def)
next
  case (Cons l ls)
  have a: "split (l @ nl # t) nl = l # split t nl" if "nl \<notin> set l" for t
    using that by (induction l) auto
  have "unlines (l # ls) @ rest = l @ nl # (unlines ls @ rest)"
    by (simp add: unlines_def)
  then show ?case using Cons a[of "unlines ls @ rest"] by simp
qed

lemma frame_lines_unlines:
  "\<forall>l\<in>set ls. nl \<notin> set l \<Longrightarrow> nl \<notin> set frag \<Longrightarrow>
   butlast (split (unlines ls @ frag) nl) = ls"
  by (simp add: split_unlines split_no_sep)

lemma spec_dispatch_no_sentinel:
  "js ''data: [DONE]'' \<notin> set ls \<Longrightarrow> spec_dispatch parse ls = spec_line_events parse ls"
proof -
  assume "js ''data: [DONE]'' \<notin> set ls"
  then have "takeWhile (\<lambda>l. l \<noteq> js ''data: [DONE]'') ls = ls"
    by (induction ls) auto
  then show ?thesis by (simp only: spec_dispatch_def)
qed

lemma spec_dispatch_sentinel: "spec_dispatch parse (js ''data: [DONE]'' # ls) = []"
  by (simp add: spec_dispatch_def spec_line_events_def List.map_filter_def)

lemma data_line_take: "take 6 (js ''data: '' @ payload) = js ''data: ''"
  by (simp add: js_def)

lemma data_line_drop: "drop 6 (js ''data: '' @ payload) = payload"
  by (simp add: js_def)

lemma data_line_sentinel:
  "js ''data: '' @ payload = js ''data: [DONE]'' \<longleftrightarrow> payload = js ''[DONE]''"
  by (simp add: js_def)

lemma spec_dispatch_data_line:
  "payload \<noteq> js ''[DONE]'' \<Longrightarrow>
   spec_dispatch parse ((js ''data: '' @ payload) # ls) =
     (case parse payload of None \<Rightarrow> spec_dispatch parse ls
      | Some v \<Rightarrow> v # spec_dispatch parse ls)"
  by (simp add: spec_dispatch_def spec_line_events_def List.map_filter_def
      data_line_take data_line_drop data_line_sentinel del: take_append drop_append
      split: option.splits)

lemma frame_lines_data_line:
  assumes "decoded = unlines (before @ [js ''data: '' @ payload] @ after) @ frag"
    and "\<forall>l\<in>set (before @ after). nl \<notin> set l"
    and "nl \<notin> set payload" and "nl \<notin> set frag"
  shows "butlast (split decoded nl) = before @ [js ''data: '' @ payload] @ after"
proof -
  have "nl \<notin> set (js ''data: '' @ payload)" using assms(3) by (simp add: js_def nl_def)
  then have "\<forall>l\<in>set (before @ [js ''data: '' @ payload] @ after). nl \<notin> set l"
    using assms(2) by auto
  then show ?thesis using assms(1,4) frame_lines_unlines by simp
qed

lemma visualization_lines_eq: "visualization_lines parse ls = reconciliation_lines parse ls"
  by (induction ls) (simp_all add: Let_def split: option.splits)

lemma visualization_loop_eq:
  "visualization_loop parse td buffer chunks = reconciliation_loop parse td buffer chunks"
  by (induction chunks arbitrary: td buffer)
     (simp_all add: visualization_lines_eq split_def Let_def)

section \<open>Frame decoding and event dispatch\<close>

text \<open>
  C1. However the bytes of a body are cut into chunks, \<open>streamReconciliation\<close> yields the
  events it yields for the same bytes delivered as one chunk. This holds for every byte
  sequence, well-formed or not, and so for a cut inside a multi-byte UTF-8 sequence or
  inside a line: the decoder keeps the unfinished code point and the buffer keeps the
  unfinished line.
\<close>

theorem chunking_invariance:
  "streamReconciliation parse file (Resolved \<lparr>ok = True, body = Some chunks\<rparr>) =
   streamReconciliation parse file (Resolved \<lparr>ok = True, body = Some [concat chunks]\<rparr>)"
  by (simp add: streamReconciliation_spec body_text_def)

text \<open>
  The euro sign U+20AC is the bytes E2 82 AC. Cut after the second byte, inside the line
  \<open>data: "\<euro>"\<close>, the two chunks give the one event that the whole body gives.
\<close>

theorem chunking_invariance_witness:
  "streamReconciliation JSON_parse ()
     (Resolved \<lparr>ok = True,
                body = Some [concat [ascii ''data: '' @ [0x22, 0xE2, 0x82], [0xAC, 0x22, 0x0A]]]\<rparr>)
   = Inr [JString [0x20AC]]"
proof -
  have "streamReconciliation JSON_parse ()
     (Resolved \<lparr>ok = True, body = Some [ascii ''data: '' @ [0x22, 0xE2, 0x82], [0xAC, 0x22, 0x0A]]\<rparr>)
   = Inr [JString [0x20AC]]"
    by code_simp
  then show ?thesis
    using chunking_invariance
      [of JSON_parse "()" "[ascii ''data: '' @ [0x22, 0xE2, 0x82], [0xAC, 0x22, 0x0A]]"]
    by simp
qed

text \<open>
  C2. When the decoded body is a sequence of complete lines \<open>ls\<close>, none of them the
  sentinel line, followed by the line \<open>data: [DONE]\<close> and by any text \<open>post\<close>, the events
  are exactly those of \<open>ls\<close>: nothing of \<open>post\<close> is emitted, whatever lines it holds and
  however the body was cut into chunks.
\<close>

theorem done_sentinel_terminates:
  assumes "body_text chunks = unlines ls @ js ''data: [DONE]'' @ nl # post"
    and "\<forall>l\<in>set ls. nl \<notin> set l \<and> l \<noteq> js ''data: [DONE]''"
  shows "streamReconciliation parse file (Resolved \<lparr>ok = True, body = Some chunks\<rparr>) =
           Inr (spec_line_events parse ls)"
proof -
  have nn: "\<forall>l\<in>set ls. nl \<notin> set l" and ns: "js ''data: [DONE]'' \<notin> set ls"
    using assms(2) by auto
  have sn: "nl \<notin> set (js ''data: [DONE]'')" by (simp add: js_def nl_def)
  have "split (body_text chunks) nl = ls @ js ''data: [DONE]'' # split post nl"
  proof -
    have "split (js ''data: [DONE]'' @ nl # post) nl = js ''data: [DONE]'' # split post nl"
      using split_unlines[of "[js ''data: [DONE]'']" post] sn by (simp add: unlines_def)
    then show ?thesis using assms(1) split_unlines[OF nn] by simp
  qed
  then have "butlast (split (body_text chunks) nl)
      = ls @ js ''data: [DONE]'' # butlast (split post nl)"
    by (simp add: butlast_append split_not_Nil)
  then show ?thesis using ns
    by (simp add: streamReconciliation_spec spec_dispatch_append spec_dispatch_sentinel
        spec_dispatch_no_sentinel)
qed

theorem done_sentinel_terminates_witness:
  "streamReconciliation JSON_parse ()
     (Resolved \<lparr>ok = True,
                body = Some [ascii ''data: 1'' @ [0x0A] @ ascii ''data: [DO'',
                             ascii ''NE]'' @ [0x0A] @ ascii ''data: 2'' @ [0x0A]]\<rparr>)
   = Inr [JNumber (js ''1'')]"
proof -
  have h1: "body_text [ascii ''data: 1'' @ [0x0A] @ ascii ''data: [DO'',
                       ascii ''NE]'' @ [0x0A] @ ascii ''data: 2'' @ [0x0A]]
      = unlines [js ''data: 1''] @ js ''data: [DONE]'' @ nl # (js ''data: 2'' @ [nl])"
    by code_simp
  have h2: "\<forall>l\<in>set [js ''data: 1'']. nl \<notin> set l \<and> l \<noteq> js ''data: [DONE]''"
    by code_simp
  have h3: "spec_line_events JSON_parse [js ''data: 1''] = [JNumber (js ''1'')]"
    by code_simp
  show ?thesis
    using done_sentinel_terminates[OF h1 h2, of JSON_parse "()"] h3 by simp
qed

text \<open>
  C3. A \<open>data: \<close> line whose payload \<open>parse\<close> rejects emits nothing and does not stop the
  stream: the events are those of the same lines without it. The instance is the body
  \<open>data: {not json}\<close> followed by \<open>data: {"type":"thought","data":"x"}\<close>, which yields
  the one thought event.
\<close>

theorem malformed_payload_skipped:
  assumes "body_text chunks = unlines (before @ [js ''data: '' @ payload] @ after) @ frag"
    and "\<forall>l\<in>set (before @ after). nl \<notin> set l"
    and "nl \<notin> set payload" and "nl \<notin> set frag"
    and "payload \<noteq> js ''[DONE]''"
    and "parse payload = None"
  shows "streamReconciliation parse file (Resolved \<lparr>ok = True, body = Some chunks\<rparr>) =
           Inr (spec_dispatch parse (before @ after))"
proof -
  have "butlast (split (body_text chunks) nl) = before @ [js ''data: '' @ payload] @ after"
    using frame_lines_data_line[OF assms(1-4)] .
  then show ?thesis using assms(5,6)
    by (simp add: streamReconciliation_spec spec_dispatch_append spec_dispatch_data_line)
qed

theorem malformed_payload_skipped_witness:
  \<open>streamReconciliation JSON_parse ()
     (Resolved \<lparr>ok = True,
                body = Some [ascii ''data: {not json}'' @ [0x0A] @
                             ascii ''data: {"type":"thought","data":"x"}'' @ [0x0A]]\<rparr>)
   = Inr [JObject [(js ''type'', JString (js ''thought'')), (js ''data'', JString (js ''x''))]]\<close>
proof -
  have h1: \<open>body_text [ascii ''data: {not json}'' @ [0x0A] @
                       ascii ''data: {"type":"thought","data":"x"}'' @ [0x0A]]
      = unlines ([] @ [js ''data: '' @ js ''{not json}'']
                 @ [js ''data: {"type":"thought","data":"x"}'']) @ []\<close>
    by code_simp
  have h2: \<open>\<forall>l\<in>set ([] @ [js ''data: {"type":"thought","data":"x"}'']). nl \<notin> set l\<close>
    by code_simp
  have h3: "nl \<notin> set (js ''{not json}'')" by code_simp
  have h4: "nl \<notin> set []" by simp
  have h5: "js ''{not json}'' \<noteq> js ''[DONE]''" by code_simp
  have h6: "JSON_parse (js ''{not json}'') = None" by code_simp
  have h7: \<open>spec_dispatch JSON_parse ([] @ [js ''data: {"type":"thought","data":"x"}''])
      = [JObject [(js ''type'', JString (js ''thought'')), (js ''data'', JString (js ''x''))]]\<close>
    by code_simp
  show ?thesis
    using malformed_payload_skipped
      [where parse = JSON_parse and before = "[]" and payload = "js ''{not json}''"
         and after = \<open>[js ''data: {"type":"thought","data":"x"}'']\<close> and frag = "[]",
       OF h1 h2 h3 h4 h5 h6, of "()"] h7
    by simp
qed

text \<open>
  C4. When the decoded body is a sequence of complete lines \<open>ls\<close> followed by a fragment
  that holds no delimiter, the events are those of \<open>ls\<close>: at the end of the body the
  fragment is still in the buffer and is dropped, so it is never a line and never an event.
\<close>

theorem trailing_fragment_discarded:
  assumes "body_text chunks = unlines ls @ frag"
    and "\<forall>l\<in>set ls. nl \<notin> set l" and "nl \<notin> set frag"
  shows "streamReconciliation parse file (Resolved \<lparr>ok = True, body = Some chunks\<rparr>) =
           Inr (spec_dispatch parse ls)"
  using assms by (simp add: streamReconciliation_spec frame_lines_unlines)

theorem trailing_fragment_discarded_witness:
  "streamReconciliation JSON_parse ()
     (Resolved \<lparr>ok = True, body = Some [ascii ''data: 1'' @ [0x0A], ascii ''data: 2'']\<rparr>)
   = Inr [JNumber (js ''1'')]"
proof -
  have h1: "body_text [ascii ''data: 1'' @ [0x0A], ascii ''data: 2'']
      = unlines [js ''data: 1''] @ js ''data: 2''"
    by code_simp
  have h2: "\<forall>l\<in>set [js ''data: 1'']. nl \<notin> set l" by code_simp
  have h3: "nl \<notin> set (js ''data: 2'')" by code_simp
  have h4: "spec_dispatch JSON_parse [js ''data: 1''] = [JNumber (js ''1'')]" by code_simp
  show ?thesis
    using trailing_fragment_discarded[OF h1 h2 h3, of JSON_parse "()"] h4 by simp
qed

text \<open>
  C9. A \<open>data: \<close> line before any sentinel whose payload \<open>parse\<close> accepts yields the
  parsed value itself, at its place in the sequence: after the events of the lines before
  it and before those of the lines after it. The value is of an arbitrary type, so the
  loop cannot look at a \<open>type\<close> field; the instance has a discriminator outside the
  three of \<open>SSEEvent\<close>.
\<close>

theorem parsed_payload_passed_through:
  assumes "body_text chunks = unlines (before @ [js ''data: '' @ payload] @ after) @ frag"
    and "\<forall>l\<in>set (before @ after). nl \<notin> set l"
    and "nl \<notin> set payload" and "nl \<notin> set frag"
    and "js ''data: [DONE]'' \<notin> set before"
    and "payload \<noteq> js ''[DONE]''"
    and "parse payload = Some v"
  shows "streamReconciliation parse file (Resolved \<lparr>ok = True, body = Some chunks\<rparr>) =
           Inr (spec_line_events parse before @ v # spec_dispatch parse after)"
proof -
  have "butlast (split (body_text chunks) nl) = before @ [js ''data: '' @ payload] @ after"
    using frame_lines_data_line[OF assms(1-4)] .
  then show ?thesis using assms(5,6,7)
    by (simp add: streamReconciliation_spec spec_dispatch_append spec_dispatch_data_line
        spec_dispatch_no_sentinel)
qed

theorem parsed_payload_passed_through_witness:
  \<open>streamReconciliation JSON_parse ()
     (Resolved \<lparr>ok = True,
                body = Some [ascii ''data: {"type":"mystery","data":7}'' @ [0x0A] @
                             ascii ''data: [1]'' @ [0x0A]]\<rparr>)
   = Inr [JObject [(js ''type'', JString (js ''mystery'')), (js ''data'', JNumber (js ''7''))],
          JArray [JNumber (js ''1'')]]\<close>
proof -
  have h1: \<open>body_text [ascii ''data: {"type":"mystery","data":7}'' @ [0x0A] @
                       ascii ''data: [1]'' @ [0x0A]]
      = unlines ([] @ [js ''data: '' @ js ''{"type":"mystery","data":7}'']
                 @ [js ''data: [1]'']) @ []\<close>
    by code_simp
  have h2: "\<forall>l\<in>set ([] @ [js ''data: [1]'']). nl \<notin> set l" by code_simp
  have h3: \<open>nl \<notin> set (js ''{"type":"mystery","data":7}'')\<close> by code_simp
  have h4: "nl \<notin> set []" by simp
  have h5: "js ''data: [DONE]'' \<notin> set []" by simp
  have h6: \<open>js ''{"type":"mystery","data":7}'' \<noteq> js ''[DONE]''\<close> by code_simp
  have h7: \<open>JSON_parse (js ''{"type":"mystery","data":7}'')
      = Some (JObject [(js ''type'', JString (js ''mystery'')), (js ''data'', JNumber (js ''7''))])\<close>
    by code_simp
  have h8: "spec_line_events JSON_parse [] = []"
    by (simp add: spec_line_events_def List.map_filter_def)
  have h9: "spec_dispatch JSON_parse [js ''data: [1]''] = [JArray [JNumber (js ''1'')]]"
    by code_simp
  show ?thesis
    using parsed_payload_passed_through
      [where parse = JSON_parse and before = "[]"
         and payload = \<open>js ''{"type":"mystery","data":7}''\<close>
         and after = "[js ''data: [1]'']" and frag = "[]",
       OF h1 h2 h3 h4 h5 h6 h7, of "()"] h8 h9
    by simp
qed

text \<open>
  C10. For every list of chunks delivered as the body of a successful response,
  \<open>streamVisualization\<close> and \<open>streamReconciliation\<close> yield the same events: the two loops
  are the same function of the chunks.
\<close>

theorem stream_loops_agree:
  "streamVisualization parse (Resolved \<lparr>ok = True, body = Some chunks\<rparr>) =
   streamReconciliation parse file (Resolved \<lparr>ok = True, body = Some chunks\<rparr>)"
  by (simp add: streamVisualization_def streamReconciliation_def visualization_loop_eq)

theorem stream_loops_agree_witness:
  "streamVisualization JSON_parse
     (Resolved \<lparr>ok = True, body = Some [ascii ''data: 1'' @ [0x0A], ascii ''data: [DONE]'' @ [0x0A]]\<rparr>)
   = Inr [JNumber (js ''1'')]"
proof -
  have "streamReconciliation JSON_parse ()
     (Resolved \<lparr>ok = True, body = Some [ascii ''data: 1'' @ [0x0A], ascii ''data: [DONE]'' @ [0x0A]]\<rparr>)
   = Inr [JNumber (js ''1'')]"
    by code_simp
  then show ?thesis
    using stream_loops_agree
      [of JSON_parse "[ascii ''data: 1'' @ [0x0A], ascii ''data: [DONE]'' @ [0x0A]]" "()"]
    by simp
qed

section \<open>Session controller\<close>

text \<open>
  C5. For every prior state and every summary record, the context's \<open>setSessionData\<close>
  with that record sets \<open>hasSession\<close>, stores the record as the cached dataset and leaves
  \<open>backendOnline\<close> as it was: the controller is in Online, HasSession afterwards exactly
  when it was online before.
\<close>

theorem adoptSession_keeps_backendOnline:
  "hasSession (setSessionData (Some d) s) = True \<and>
   sessionData (setSessionData (Some d) s) = Some d \<and>
   backendOnline (setSessionData (Some d) s) = backendOnline s"
  by (simp add: setSessionData_def)

text \<open>
  From Offline the setter does not bring the controller online: after a refresh whose
  probe was rejected, adopting a summary leaves \<open>backendOnline\<close> false.
\<close>

theorem adoptSession_offline_counterexample:
  "backendOnline (setSessionData (Some example_summary) (refreshSession Rejected initial_session))
     = False"
  by (simp add: setSessionData_def refreshSession_def checkHealth_def initial_session_def)

text \<open>
  C6. From every prior state, a refresh whose probe is rejected, answers with a
  non-success status or has a body that is not JSON leaves \<open>backendOnline\<close> and
  \<open>hasSession\<close> false.
\<close>

theorem refresh_failure_offline:
  assumes "probe = Rejected \<or> (\<exists>r. probe = Resolved r \<and> (\<not> ok r \<or> body r = None))"
  shows "backendOnline (refreshSession probe s) = False \<and>
         hasSession (refreshSession probe s) = False"
  using assms by (auto simp: refreshSession_def checkHealth_def Let_def split: if_splits)

theorem refresh_failure_offline_witness:
  "backendOnline (refreshSession (Resolved \<lparr>ok = False, body = None\<rparr>)
      \<lparr>hasSession = True, sessionData = Some example_summary, backendOnline = True\<rparr>) = False \<and>
   hasSession (refreshSession (Resolved \<lparr>ok = False, body = None\<rparr>)
      \<lparr>hasSession = True, sessionData = Some example_summary, backendOnline = True\<rparr>) = False"
proof -
  have h: "Resolved \<lparr>ok = False, body = None\<rparr> = Rejected \<or>
      (\<exists>r. Resolved \<lparr>ok = False, body = None\<rparr> = Resolved r \<and> (\<not> ok r \<or> body r = None))"
    by simp
  show ?thesis using refresh_failure_offline[OF h] by simp
qed

text \<open>
  C7. From every prior state, a refresh whose probe answers successfully with
  \<open>has_session\<close> false leaves \<open>backendOnline\<close> true, \<open>hasSession\<close> false and no cached
  dataset.
\<close>

theorem refresh_no_session:
  assumes "\<not> has_session health"
  shows "backendOnline (refreshSession (Resolved \<lparr>ok = True, body = Some health\<rparr>) s) = True \<and>
         hasSession (refreshSession (Resolved \<lparr>ok = True, body = Some health\<rparr>) s) = False \<and>
         sessionData (refreshSession (Resolved \<lparr>ok = True, body = Some health\<rparr>) s) = None"
  using assms by (simp add: refreshSession_def checkHealth_def)

theorem refresh_no_session_witness:
  "sessionData (refreshSession
      (Resolved \<lparr>ok = True,
                 body = Some \<lparr>status = ''ok'', has_session = False, health_filename = None\<rparr>\<rparr>)
      \<lparr>hasSession = True, sessionData = Some example_summary, backendOnline = True\<rparr>) = None"
proof -
  have h: "\<not> has_session \<lparr>status = ''ok'', has_session = False, health_filename = None\<rparr>"
    by simp
  show ?thesis using refresh_no_session[OF h] by simp
qed

section \<open>Timeout of the requests to /ask\<close>

text \<open>
  C8. The request that \<open>InsightCard.fetchInsight\<close> sends to \<open>/ask\<close> carries a timeout of
  25000 milliseconds, and when the answer is not there by then the call ends as a failure:
  the error flag is set and loading is cleared.
\<close>

theorem insight_timeout:
  assumes "net = Never \<or> (\<exists>t r. net = After t r \<and> 25000 \<le> t)"
  shows "signal (fetchInsight_init (prompt d)) = Some 25000 \<and>
         fetchInsight prompt (Some d) net st = Some (st\<lparr>loading := False, error := True\<rparr>)"
  using assms by (auto simp: fetchInsight_def fetchInsight_init_def fetch_def)

theorem insight_timeout_witness:
  "fetchInsight (\<lambda>d. filename d) (Some example_summary)
     (After 30000 (Resolved \<lparr>ok = True,
        body = Some \<lparr>answer = Some ''fine'', grounded = True,
                     session = \<lparr>chat_filename = ''a.csv'', chat_original_rows = 100,
                                chat_clean_rows = 90\<rparr>\<rparr>\<rparr>))
     \<lparr>insight = [], loading = False, error = False, fetched = False\<rparr>
   = Some \<lparr>insight = [], loading = False, error = True, fetched = False\<rparr>"
proof -
  let ?net = "After 30000 (Resolved \<lparr>ok = True,
        body = Some \<lparr>answer = Some ''fine'', grounded = True,
                     session = \<lparr>chat_filename = ''a.csv'', chat_original_rows = 100,
                                chat_clean_rows = 90\<rparr>\<rparr>\<rparr>)"
  have h: "?net = Never \<or> (\<exists>t r. ?net = After t r \<and> 25000 \<le> t)" by simp
  show ?thesis
    using insight_timeout[OF h, of "\<lambda>d. filename d" example_summary
        "\<lparr>insight = [], loading = False, error = False, fetched = False\<rparr>"]
    by simp
qed

text \<open>
  The request of \<open>askQuestion\<close> to \<open>/ask\<close> carries no signal: an answer that arrives
  after 30 seconds is returned as a success.
\<close>

theorem askQuestion_no_timeout_counterexample:
  "signal (askQuestion_init \<lparr>question = ''How many duplicates were removed?''\<rparr>) = None \<and>
   askQuestion \<lparr>question = ''How many duplicates were removed?''\<rparr>
     (After 30000 (Resolved \<lparr>ok = True,
        body = Some \<lparr>answer = Some ''10'', grounded = True,
                     session = \<lparr>chat_filename = ''a.csv'', chat_original_rows = 100,
                                chat_clean_rows = 90\<rparr>\<rparr>\<rparr>))
   = Some (Inr \<lparr>answer = Some ''10'', grounded = True,
                session = \<lparr>chat_filename = ''a.csv'', chat_original_rows = 100,
                           chat_clean_rows = 90\<rparr>\<rparr>)"
  by (simp add: askQuestion_def askQuestion_init_def fetch_def)

end
